theory Spec2Isabelle
  imports Main
begin

section \<open>CUDA Transpose: strategy selection and dimension collapsing\<close>

text \<open>
  A shallow embedding of \<^verbatim>\<open>onnxruntime/core/providers/cuda/tensor/transpose.cc\<close>.
  Permutation entries are \<^verbatim>\<open>size_t\<close> values and are modelled as \<^typ>\<open>nat\<close>; the one
  place where a \<^verbatim>\<open>size_t\<close> addition could wrap (\<^verbatim>\<open>prev + 1\<close>) has the wrap-around
  written out. Dimension sizes are \<^verbatim>\<open>int64_t\<close> values and are modelled as \<^typ>\<open>int\<close>;
  the products the code forms are taken exactly (a signed 64-bit overflow is undefined
  in C++ and has no behaviour to embed). A \<^verbatim>\<open>std::vector\<close> is a list; an access out
  of range and a failed \<^verbatim>\<open>gsl::narrow\<close> are error values.
\<close>

subsection \<open>Errors and conversions\<close>

datatype error = NarrowingError | OutOfRange

text \<open>\<^verbatim>\<open>gsl::narrow<int>\<close>: the checked conversion to a signed 32-bit integer.\<close>

definition narrow_int :: "int \<Rightarrow> error + int" where
  "narrow_int x = (if - (2 ^ 31) \<le> x \<and> x < 2 ^ 31 then Inr x else Inl NarrowingError)"

text \<open>\<^verbatim>\<open>gsl::narrow_cast<int>\<close>: the unchecked conversion, which keeps the low 32 bits.\<close>

definition narrow_cast_int :: "int \<Rightarrow> int" where
  "narrow_cast_int x = (x + 2 ^ 31) mod 2 ^ 32 - 2 ^ 31"

text \<open>\<^verbatim>\<open>static_cast<int32_t>\<close> of a vector's size.\<close>

definition cast_int32 :: "nat \<Rightarrow> int" where
  "cast_int32 n = narrow_cast_int (int n)"

subsection \<open>The matrix-transpose detector\<close>

text \<open>
  \<^verbatim>\<open>TryTransposeWithCublas\<close> (lines 21-44). The returned tuple starts as \<open>(0, 0)\<close>; the
  rank-4 condition reads \<^verbatim>\<open>input_shape[0]\<close> as soon as the permutation has four entries, and
  the three further sizes once the pattern has matched.
\<close>

definition TryTransposeWithCublas :: "nat list \<Rightarrow> int list \<Rightarrow> error + (int \<times> int)" where
  "TryTransposeWithCublas perm input_shape =
    (if length perm = 4 then
       (if length input_shape < 1 then Inl OutOfRange
        else if input_shape ! 0 = 1 \<and> perm ! 0 = 0 then
          (if (perm ! 1 = 2 \<and> perm ! 2 = 3 \<and> perm ! 3 = 1) \<or>
              (perm ! 1 = 3 \<and> perm ! 2 = 1 \<and> perm ! 3 = 2) then
             (if length input_shape < 4 then Inl OutOfRange
              else if perm ! 1 = 2 then
                (case narrow_int (input_shape ! 1) of
                   Inl e \<Rightarrow> Inl e
                 | Inr M \<Rightarrow>
                    (case narrow_int (input_shape ! 2 * input_shape ! 3) of
                       Inl e \<Rightarrow> Inl e
                     | Inr N \<Rightarrow> Inr (M, N)))
              else
                (case narrow_int (input_shape ! 1 * input_shape ! 2) of
                   Inl e \<Rightarrow> Inl e
                 | Inr M \<Rightarrow>
                    (case narrow_int (input_shape ! 3) of
                       Inl e \<Rightarrow> Inl e
                     | Inr N \<Rightarrow> Inr (M, N))))
           else Inr (0, 0))
        else Inr (0, 0))
     else if length perm = 2 \<and> perm ! 1 = 0 \<and> perm ! 0 = 1 then
       (if length input_shape < 2 then Inl OutOfRange
        else
          (case narrow_int (input_shape ! 0) of
             Inl e \<Rightarrow> Inl e
           | Inr M \<Rightarrow>
              (case narrow_int (input_shape ! 1) of
                 Inl e \<Rightarrow> Inl e
               | Inr N \<Rightarrow> Inr (M, N))))
     else Inr (0, 0))"

text \<open>
  The caller's reading of the tuple (line 80, \<^verbatim>\<open>M != 0 && N != 0\<close>): a pair with a zero
  component is no fit.
\<close>

definition is_fit :: "int \<times> int \<Rightarrow> bool" where
  "is_fit mn = (fst mn \<noteq> 0 \<and> snd mn \<noteq> 0)"

subsection \<open>The dimension collapser\<close>

text \<open>
  The vectors the collapsing loop of \<^verbatim>\<open>Transpose::DoTranspose\<close> (lines 94-130) works on.
  \<open>permutations\<close>, \<open>input_dims\<close> and \<open>output_dims\<close> are the caller's vectors, held by
  constant reference; the four \<open>new_\<close> fields are the local copies the loop rewrites.
\<close>

record collapse_state =
  permutations :: "nat list"
  input_dims :: "int list"
  output_dims :: "int list"
  new_rank :: int
  new_permutations :: "nat list"
  new_input_dims :: "int list"
  new_output_dims :: "int list"

text \<open>
  Lines 106-110: \<^verbatim>\<open>for (j = 0; j < new_rank; j++) if (new_permutations[j] > curr)
  new_permutations[j] -= 1;\<close>
\<close>

definition decrement_above :: "nat \<Rightarrow> nat \<Rightarrow> nat list \<Rightarrow> nat list" where
  "decrement_above cur r ps =
     fold (\<lambda>j ys. if ys ! j > cur then ys[j := ys ! j - 1] else ys) [0..<r] ps"

text \<open>
  Lines 111-113, 117-119 and 124-126: \<^verbatim>\<open>for (j = lo; j < hi; j++) xs[j-1] = xs[j];\<close>
\<close>

definition shift_left :: "nat \<Rightarrow> nat \<Rightarrow> 'a list \<Rightarrow> 'a list" where
  "shift_left lo hi xs = fold (\<lambda>j ys. ys[j - 1 := ys ! j]) [lo..<hi] xs"

text \<open>
  One pass of the loop body at output axis \<open>i\<close> (lines 102-129). \<open>cur\<close> (the source's
  \<^verbatim>\<open>curr\<close>) and \<open>prev\<close> are read from the caller's permutation, and index the rewritten
  vectors as they are. The guard lists the accesses of the body: an index beyond a vector
  is an error.
\<close>

definition collapse_step :: "nat \<Rightarrow> collapse_state \<Rightarrow> error + collapse_state" where
  "collapse_step i s =
    (if length (permutations s) \<le> i then Inl OutOfRange
     else
       let cur = permutations s ! i;
           prev = permutations s ! (i - 1);
           r = nat (new_rank s)
       in
         if (int prev + 1) mod 2 ^ 64 \<noteq> int cur then Inr s
         else if \<not> (1 \<le> r \<and> r \<le> length (new_permutations s) \<and>
                    prev < length (new_input_dims s) \<and> cur < length (new_input_dims s) \<and>
                    r \<le> length (new_input_dims s) \<and>
                    i < length (new_output_dims s) \<and> r \<le> length (new_output_dims s))
         then Inl OutOfRange
         else Inr (s\<lparr>
           new_permutations :=
             shift_left (i + 1) r (decrement_above cur r (new_permutations s)),
           new_input_dims :=
             (shift_left (cur + 1) r
                ((new_input_dims s)
                   [prev := new_input_dims s ! prev * new_input_dims s ! cur, cur := 1]))
               [r - 1 := 1],
           new_output_dims :=
             (shift_left (i + 1) r
                ((new_output_dims s)
                   [i - 1 := new_output_dims s ! (i - 1) * new_output_dims s ! i, i := 1]))
               [r - 1 := 1],
           new_rank := new_rank s - 1\<rparr>))"

text \<open>\<^verbatim>\<open>for (auto i = rank - 1; i > 0; i--)\<close>: \<open>collapse_loop k\<close> runs the passes \<open>k, \<dots>, 1\<close>.\<close>

fun collapse_loop :: "nat \<Rightarrow> collapse_state \<Rightarrow> error + collapse_state" where
  "collapse_loop 0 s = Inr s"
| "collapse_loop (Suc k) s =
     (case collapse_step (Suc k) s of
        Inl e \<Rightarrow> Inl e
      | Inr s' \<Rightarrow> collapse_loop k s')"

text \<open>Lines 94-100: the rank and the three copies.\<close>

definition collapse_init :: "nat list \<Rightarrow> int list \<Rightarrow> int list \<Rightarrow> collapse_state" where
  "collapse_init perm in_dims out_dims =
     \<lparr>permutations = perm, input_dims = in_dims, output_dims = out_dims,
      new_rank = cast_int32 (length in_dims),
      new_permutations = perm, new_input_dims = in_dims, new_output_dims = out_dims\<rparr>"

definition collapse :: "nat list \<Rightarrow> int list \<Rightarrow> int list \<Rightarrow> error + collapse_state" where
  "collapse perm in_dims out_dims =
     collapse_loop (nat (cast_int32 (length in_dims) - 1)) (collapse_init perm in_dims out_dims)"

subsection \<open>Shapes and strides\<close>

text \<open>
  Modelled from the spec: \<^verbatim>\<open>TensorShape::Size\<close> is declared outside this file; the
  element count of a shape is the product of its dimension sizes.
\<close>

definition Size :: "int list \<Rightarrow> int" where
  "Size dims = prod_list dims"

text \<open>
  Modelled from the spec: \<^verbatim>\<open>TensorPitches\<close> is declared outside this file; the stride of
  an axis is the product of all dimension sizes to its right (row-major, last axis
  fastest).
\<close>

definition TensorPitches :: "int list \<Rightarrow> int list" where
  "TensorPitches dims = map (\<lambda>i. prod_list (drop (Suc i) dims)) [0..<length dims]"

text \<open>
  Lines 142-144 and 154-156: \<^verbatim>\<open>for (i = 0; i < new_rank; i++) out[i] = strides[perm[i]];\<close>
\<close>

definition permute_strides :: "int list \<Rightarrow> nat list \<Rightarrow> nat \<Rightarrow> error + int list" where
  "permute_strides strides perm n =
     (if n \<le> length perm \<and> list_all (\<lambda>i. perm ! i < length strides) [0..<n]
      then Inr (map (\<lambda>i. strides ! (perm ! i)) [0..<n])
      else Inl OutOfRange)"

subsection \<open>The dispatcher\<close>

datatype elem_type = Float | Double | Float16 | OtherType

datatype status = OK | AdapterFailure

text \<open>The three execution adapters, each with the arguments the dispatcher hands over.\<close>

datatype adapter_call =
    TransposeWithCublas elem_type int int
  | Transpose4DImpl nat "int list" "int list" "int list" int
  | TransposeImpl nat int "int list" "int list" int

record tensor =
  Shape :: "int list"
  GetElementType :: elem_type
  DataTypeSize :: nat

text \<open>
  The collaborators that are declared outside this file are parameters: the eligibility
  predicate of the fixed-rank path and the status each adapter reports.
\<close>

record collaborators =
  canDoTranspose4D :: "nat \<Rightarrow> int \<Rightarrow> int list \<Rightarrow> nat list \<Rightarrow> bool"
  run_adapter :: "adapter_call \<Rightarrow> status"

text \<open>
  What a call leaves behind: the returned status (or the exception), the adapter calls
  made, the collapsed vectors when the collapser ran, and the caller's three vectors as
  they are after the call.
\<close>

record outcome =
  returned :: "error + status"
  adapter_calls :: "adapter_call list"
  plan :: "collapse_state option"
  caller_permutations :: "nat list"
  caller_input_dims :: "int list"
  caller_output_dims :: "int list"

text \<open>Lines 132-166: stride tables and the choice between the two strided kernels.\<close>

definition dispatch_collapsed ::
  "collaborators \<Rightarrow> tensor \<Rightarrow> tensor \<Rightarrow> collapse_state \<Rightarrow> (error + status) \<times> adapter_call list" where
  "dispatch_collapsed kern input output s =
    (let new_input_strides = TensorPitches (new_input_dims s);
         new_output_strides = TensorPitches (new_output_dims s);
         input_shape = new_input_dims s;
         tmp_input_strides = new_input_strides;
         element_size = DataTypeSize input;
         r = nat (new_rank s)
     in
       if canDoTranspose4D kern element_size (new_rank s) (new_input_dims s) (new_permutations s)
       then
         (case permute_strides new_output_strides (new_permutations s) r of
            Inl e \<Rightarrow> (Inl e, [])
          | Inr tmp_output_strides \<Rightarrow>
              (let c = Transpose4DImpl element_size input_shape tmp_input_strides
                         tmp_output_strides (Size (Shape output))
               in (Inr (run_adapter kern c), [c])))
       else
         (case permute_strides new_input_strides (new_permutations s) r of
            Inl e \<Rightarrow> (Inl e, [])
          | Inr input_strides \<Rightarrow>
              if r \<le> length new_output_strides then
                (let output_strides = map (\<lambda>i. narrow_cast_int (new_output_strides ! i)) [0..<r];
                     c = TransposeImpl element_size (new_rank s) input_strides output_strides
                           (Size (Shape output))
                 in (Inr (run_adapter kern c), [c]))
              else (Inl OutOfRange, [])))"

text \<open>\<^verbatim>\<open>Transpose::DoTranspose\<close> (lines 67-167).\<close>

definition DoTranspose :: "collaborators \<Rightarrow> nat list \<Rightarrow> tensor \<Rightarrow> tensor \<Rightarrow> outcome" where
  "DoTranspose kern perms input output =
    (let untouched = (\<lambda>r cs.
           \<lparr>returned = r, adapter_calls = cs, plan = None,
            caller_permutations = perms, caller_input_dims = Shape input,
            caller_output_dims = Shape output\<rparr>);
         element_type = GetElementType input;
         strided =
           (case collapse perms (Shape input) (Shape output) of
              Inl e \<Rightarrow> untouched (Inl e) []
            | Inr s \<Rightarrow>
                (case dispatch_collapsed kern input output s of
                   (r, cs) \<Rightarrow>
                     \<lparr>returned = r, adapter_calls = cs, plan = Some s,
                      caller_permutations = permutations s, caller_input_dims = input_dims s,
                      caller_output_dims = output_dims s\<rparr>))
     in
       if Size (Shape output) = 0 then untouched (Inr OK) []
       else if element_type = Float \<or> element_type = Double \<or> element_type = Float16 then
         (case TryTransposeWithCublas perms (Shape input) of
            Inl e \<Rightarrow> untouched (Inl e) []
          | Inr (M, N) \<Rightarrow>
              if M \<noteq> 0 \<and> N \<noteq> 0 then
                untouched (Inr (run_adapter kern (TransposeWithCublas element_type M N)))
                  [TransposeWithCublas element_type M N]
              else strided)
       else strided)"

subsection \<open>Well-formed inputs and the predicates of the statements\<close>

text \<open>
  A valid permutation of a given rank: one entry per axis, each entry an axis index, no
  index twice; the rank is one that \<^verbatim>\<open>int32_t\<close> holds.
\<close>

definition valid_permutation :: "nat list \<Rightarrow> nat \<Rightarrow> bool" where
  "valid_permutation perm rank =
     (length perm = rank \<and> int rank < 2 ^ 31 \<and> list_all (\<lambda>p. p < rank) perm \<and> distinct perm)"

text \<open>
  The patterns of the detector's rules, in the spec's words: rank 4 with a leading input
  dimension of 1 and the permutation \<open>(0, 2, 3, 1)\<close> or \<open>(0, 3, 1, 2)\<close>, or rank 2 with the
  permutation \<open>(1, 0)\<close>.
\<close>

definition matrix_pattern :: "nat list \<Rightarrow> int list \<Rightarrow> bool" where
  "matrix_pattern perm input_shape =
     ((length perm = 4 \<and> input_shape ! 0 = 1 \<and> (perm = [0, 2, 3, 1] \<or> perm = [0, 3, 1, 2])) \<or>
      perm = [1, 0])"

text \<open>The values a signed 32-bit integer holds, the ones \<^verbatim>\<open>gsl::narrow<int>\<close> accepts.\<close>

definition fits_int :: "int \<Rightarrow> bool" where
  "fits_int x = (- (2 ^ 31) \<le> x \<and> x < 2 ^ 31)"

text \<open>
  The pair \<open>(M, N)\<close> the rules give for a permutation and shape inside the patterns, in
  the spec's words: \<open>(input_shape[1], input_shape[2] * input_shape[3])\<close> for \<open>(0, 2, 3, 1)\<close>,
  \<open>(input_shape[1] * input_shape[2], input_shape[3])\<close> for \<open>(0, 3, 1, 2)\<close>, and
  \<open>(input_shape[0], input_shape[1])\<close> for \<open>(1, 0)\<close>.
\<close>

definition pattern_fit :: "nat list \<Rightarrow> int list \<Rightarrow> int \<times> int" where
  "pattern_fit perm input_shape =
     (if perm = [0, 2, 3, 1] then (input_shape ! 1, input_shape ! 2 * input_shape ! 3)
      else if perm = [0, 3, 1, 2] then (input_shape ! 1 * input_shape ! 2, input_shape ! 3)
      else (input_shape ! 0, input_shape ! 1))"

text \<open>
  The number of output axes \<open>i\<close> in \<open>[lo, hi)\<close> whose permutation entry follows the entry
  before it: \<open>permutation[i-1] + 1 = permutation[i]\<close>, on the permutation as given.
\<close>

definition adjacent_count :: "nat list \<Rightarrow> nat \<Rightarrow> nat \<Rightarrow> nat" where
  "adjacent_count perm lo hi = length (filter (\<lambda>i. perm ! (i - 1) + 1 = perm ! i) [lo..<hi])"

text \<open>
  The invariant of the collapsing loop: the vectors keep the length of the rank, and the
  entries of both permutations stay axis indices.
\<close>

definition collapse_inv :: "nat \<Rightarrow> collapse_state \<Rightarrow> bool" where
  "collapse_inv n s =
     (int n < 2 ^ 31 \<and> length (permutations s) = n \<and> length (new_permutations s) = n \<and>
      length (new_input_dims s) = n \<and> length (new_output_dims s) = n \<and>
      list_all (\<lambda>p. p < n) (permutations s) \<and> list_all (\<lambda>p. p < n) (new_permutations s))"

text \<open>
  The flattened element counts of a collapsed plan: the products of the first \<open>new_rank\<close>
  sizes of the collapsed input and output shapes.
\<close>

definition plan_input_count :: "collapse_state \<Rightarrow> int" where
  "plan_input_count s = Size (take (nat (new_rank s)) (new_input_dims s))"

definition plan_output_count :: "collapse_state \<Rightarrow> int" where
  "plan_output_count s = Size (take (nat (new_rank s)) (new_output_dims s))"

text \<open>
  A set of collaborators for concrete runs: the fixed-rank path is never eligible and
  every adapter reports success.
\<close>

definition always_ok :: collaborators where
  "always_ok = \<lparr>canDoTranspose4D = (\<lambda>_ _ _ _. False), run_adapter = (\<lambda>_. OK)\<rparr>"

subsection \<open>Reference reorderings\<close>

text \<open>
  The output shape of a transpose: axis \<open>i\<close> of the output is axis \<open>permutation[i]\<close> of the
  input.
\<close>

definition permuted_shape :: "int list \<Rightarrow> nat list \<Rightarrow> int list" where
  "permuted_shape input_shape perm = map (\<lambda>p. input_shape ! p) perm"

text \<open>
  The naive reference reordering, in the spec's words: the element at flat output index
  \<open>idx\<close> has the output coordinates given by the output strides, and is read from the input
  at the same coordinates, axis \<open>i\<close> of the output being axis \<open>perm[i]\<close> of the input.
\<close>

definition reference_source :: "int list \<Rightarrow> nat list \<Rightarrow> int \<Rightarrow> int" where
  "reference_source input_shape perm idx =
     (let out_shape = permuted_shape input_shape perm;
          out_strides = TensorPitches out_shape;
          in_strides = TensorPitches input_shape
      in sum_list (map (\<lambda>i. ((idx div out_strides ! i) mod out_shape ! i) * in_strides ! (perm ! i))
                     [0..<length perm]))"

text \<open>
  Transposing an \<open>M \<times> N\<close> row-major matrix, in the spec's words: the output is the
  \<open>N \<times> M\<close> row-major matrix whose entry \<open>(n, m)\<close> is the input's entry \<open>(m, n)\<close>.
\<close>

definition matrix_source :: "int \<Rightarrow> int \<Rightarrow> int \<Rightarrow> int" where
  "matrix_source M N idx = (idx mod M) * N + idx div M"

text \<open>
  Modelled from the spec: the general strided adapter \<^verbatim>\<open>TransposeImpl\<close> is declared outside
  this file. It decomposes the flat output index by the output strides, one (divisor,
  modulus) pair per axis, and adds up the input strides of the coordinates.
\<close>

fun strided_source :: "int list \<Rightarrow> int list \<Rightarrow> int \<Rightarrow> int" where
  "strided_source (s # ss) (d # ds) idx = s * (idx div d) + strided_source ss ds (idx mod d)"
| "strided_source _ _ idx = 0"

text \<open>The output buffer a reordering writes: element \<open>idx\<close> is read at its source index.\<close>

definition reorder :: "(int \<Rightarrow> int) \<Rightarrow> int \<Rightarrow> 'a list \<Rightarrow> 'a list" where
  "reorder source n data = map (\<lambda>idx. data ! nat (source (int idx))) [0..<nat n]"

text \<open>The general strided adapter run on the arguments of its call.\<close>

fun run_TransposeImpl :: "adapter_call \<Rightarrow> 'a list \<Rightarrow> 'a list option" where
  "run_TransposeImpl (TransposeImpl element_size rank input_strides output_strides n) data =
     Some (reorder (strided_source input_strides output_strides) n data)"
| "run_TransposeImpl _ data = None"

section \<open>The matrix-transpose detector\<close>

lemma list4: "length xs = 4 \<Longrightarrow> \<exists>a b c d. xs = [a, b, c, d]"
  by (auto simp add: length_Suc_conv numeral_eq_Suc)

lemma list2: "length xs = 2 \<Longrightarrow> \<exists>a b. xs = [a, b]"
  by (auto simp add: length_Suc_conv numeral_eq_Suc)

lemma narrow_int_fits:
  "narrow_int x = (if fits_int x then Inr x else Inl NarrowingError)"
  by (simp add: narrow_int_def fits_int_def)

text \<open>
  Claim C3, as amended. For every rank-4 input the detector returns the pair \<open>(0, 0)\<close>, no
  fit, unless the leading input dimension is 1, \<open>perm[0] = 0\<close> and \<open>(perm[1], perm[2], perm[3])\<close>
  is \<open>(2, 3, 1)\<close> or \<open>(3, 1, 2)\<close>. In the first case it returns \<open>M = input_shape[1]\<close>,
  \<open>N = input_shape[2] * input_shape[3]\<close>, in the second \<open>M = input_shape[1] * input_shape[2]\<close>,
  \<open>N = input_shape[3]\<close>, when \<open>M\<close> and \<open>N\<close> are each representable as a signed 32-bit integer,
  and it raises a narrowing error when one of them is not. Shape \<open>[1, 3, 4, 5]\<close> with
  permutation \<open>[0, 2, 3, 1]\<close> yields \<open>(3, 20)\<close>.
\<close>

theorem TryTransposeWithCublas_rank4:
  assumes "length perm = 4" "length input_shape = 4"
  shows "TryTransposeWithCublas perm input_shape =
          (if input_shape ! 0 = 1 \<and> perm ! 0 = 0 \<and> perm ! 1 = 2 \<and> perm ! 2 = 3 \<and> perm ! 3 = 1 then
             (if fits_int (input_shape ! 1) \<and> fits_int (input_shape ! 2 * input_shape ! 3)
              then Inr (input_shape ! 1, input_shape ! 2 * input_shape ! 3)
              else Inl NarrowingError)
           else if input_shape ! 0 = 1 \<and> perm ! 0 = 0 \<and> perm ! 1 = 3 \<and> perm ! 2 = 1 \<and> perm ! 3 = 2 then
             (if fits_int (input_shape ! 1 * input_shape ! 2) \<and> fits_int (input_shape ! 3)
              then Inr (input_shape ! 1 * input_shape ! 2, input_shape ! 3)
              else Inl NarrowingError)
           else Inr (0, 0)) \<and>
         TryTransposeWithCublas [0, 2, 3, 1] [1, 3, 4, 5] = Inr (3, 20)"
proof -
  obtain p0 p1 p2 p3 where p: "perm = [p0, p1, p2, p3]" using assms(1) list4 by blast
  obtain a b c d where s: "input_shape = [a, b, c, d]" using assms(2) list4 by blast
  have scenario: "TryTransposeWithCublas [0, 2, 3, 1] [1, 3, 4, 5] = Inr (3, 20)"
    by (simp add: TryTransposeWithCublas_def narrow_int_def)
  have "TryTransposeWithCublas [p0, p1, p2, p3] [a, b, c, d] =
          (if a = 1 \<and> p0 = 0 \<and> p1 = 2 \<and> p2 = 3 \<and> p3 = 1 then
             (if fits_int b \<and> fits_int (c * d) then Inr (b, c * d) else Inl NarrowingError)
           else if a = 1 \<and> p0 = 0 \<and> p1 = 3 \<and> p2 = 1 \<and> p3 = 2 then
             (if fits_int (b * c) \<and> fits_int d then Inr (b * c, d) else Inl NarrowingError)
           else Inr (0, 0))"
    by (simp add: TryTransposeWithCublas_def narrow_int_fits)
  then show ?thesis using scenario unfolding p s by simp
qed

text \<open>
  The theorem at four rank-4 inputs: two that match, one that does not, and one whose
  \<open>N\<close> is not representable.
\<close>

theorem TryTransposeWithCublas_rank4_witness:
  "TryTransposeWithCublas [0, 3, 1, 2] [1, 2, 3, 5] = Inr (6, 5) \<and>
   TryTransposeWithCublas [0, 2, 3, 1] [1, 65536, 65536, 1] = Inr (65536, 65536) \<and>
   TryTransposeWithCublas [0, 1, 3, 2] [1, 2, 3, 5] = Inr (0, 0) \<and>
   TryTransposeWithCublas [0, 2, 3, 1] [1, 1, 65536, 65536] = Inl NarrowingError"
  using TryTransposeWithCublas_rank4 [of "[0, 3, 1, 2]" "[1, 2, 3, 5]"]
    TryTransposeWithCublas_rank4 [of "[0, 2, 3, 1]" "[1, 65536, 65536, 1]"]
    TryTransposeWithCublas_rank4 [of "[0, 1, 3, 2]" "[1, 2, 3, 5]"]
    TryTransposeWithCublas_rank4 [of "[0, 2, 3, 1]" "[1, 1, 65536, 65536]"]
  by (simp add: fits_int_def)

text \<open>
  Claim C3 as written fails at the shape \<open>[1, 1, 65536, 65536]\<close> with the permutation
  \<open>[0, 2, 3, 1]\<close>: the product \<open>N\<close> is beyond the 32-bit range and the detector raises
  instead of returning a fit.
\<close>

theorem TryTransposeWithCublas_rank4_counterexample:
  "TryTransposeWithCublas [0, 2, 3, 1] [1, 1, 65536, 65536] = Inl NarrowingError"
  by (simp add: TryTransposeWithCublas_def narrow_int_def)

text \<open>
  Claim C4, as amended. For every rank-2 input with permutation \<open>(1, 0)\<close> the detector
  returns the pair \<open>M = input_shape[0]\<close>, \<open>N = input_shape[1]\<close> when both sizes are
  representable as signed 32-bit integers, and raises a narrowing error otherwise. Shape
  \<open>[2, 3]\<close> yields \<open>(2, 3)\<close>.
\<close>

theorem TryTransposeWithCublas_rank2:
  assumes "length input_shape = 2"
  shows "TryTransposeWithCublas [1, 0] input_shape =
           (if - (2 ^ 31) \<le> input_shape ! 0 \<and> input_shape ! 0 < 2 ^ 31 \<and>
               - (2 ^ 31) \<le> input_shape ! 1 \<and> input_shape ! 1 < 2 ^ 31
            then Inr (input_shape ! 0, input_shape ! 1)
            else Inl NarrowingError) \<and>
         TryTransposeWithCublas [1, 0] [2, 3] = Inr (2, 3)"
  using assms by (simp add: TryTransposeWithCublas_def narrow_int_def)

text \<open>The theorem at the shape \<open>[7, 9]\<close>.\<close>

theorem TryTransposeWithCublas_rank2_witness:
  "TryTransposeWithCublas [1, 0] [7, 9] = Inr (7, 9)"
  using TryTransposeWithCublas_rank2 [of "[7, 9]"] by simp

text \<open>
  Claim C4 as written fails at the shape \<open>[2147483648, 1]\<close>: the first size is not
  representable and the detector raises instead of returning.
\<close>

theorem TryTransposeWithCublas_rank2_counterexample:
  "TryTransposeWithCublas [1, 0] [2147483648, 1] = Inl NarrowingError"
  by (simp add: TryTransposeWithCublas_def narrow_int_def)

lemma int_div_less:
  fixes a b idx :: int
  assumes "0 < a" "idx < a * b"
  shows "idx div a < b"
proof (rule ccontr)
  assume "\<not> idx div a < b"
  then have "b \<le> idx div a" by simp
  then have "a * b \<le> a * (idx div a)" using assms(1) by (simp add: mult_left_mono)
  also have "\<dots> \<le> idx"
    using mult_div_mod_eq[of a idx] pos_mod_sign[OF assms(1), of idx] by linarith
  finally show False using assms(2) by simp
qed

lemma div_nonneg: "0 < (a::int) \<Longrightarrow> 0 \<le> idx \<Longrightarrow> 0 \<le> idx div a"
  by (simp add: pos_imp_zdiv_nonneg_iff)

lemma reference_rank2:
  assumes "0 < a" "0 < b" "0 \<le> idx" "idx < a * b"
  shows "reference_source [a, b] [1, 0] idx = matrix_source a b idx"
proof -
  have "idx div a mod b = idx div a"
    using assms by (intro mod_pos_pos_trivial div_nonneg int_div_less)
  then show ?thesis
    by (simp add: reference_source_def TensorPitches_def permuted_shape_def Let_def upt_rec
        matrix_source_def)
qed

lemma reference_nhwc:
  assumes "0 < b" "0 < c" "0 < d" "0 \<le> idx" "idx < b * (c * d)"
  shows "reference_source [1, b, c, d] [0, 2, 3, 1] idx = matrix_source b (c * d) idx"
proof -
  let ?q = "idx div b"
  have q0: "0 \<le> ?q" using assms by (intro div_nonneg)
  have q1: "?q < c * d" using assms by (intro int_div_less)
  have "idx div (d * b) = ?q div d"
    using assms(3) by (simp add: mult.commute[of d b] zdiv_zmult2_eq)
  moreover have "?q div d < c"
    using int_div_less[of d ?q c] assms(3) q1 by (simp add: mult.commute)
  moreover have "0 \<le> ?q div d"
    using assms(3) q0 by (rule div_nonneg)
  ultimately have "idx div (d * b) = ?q div d" "?q div d mod c = ?q div d"
    by simp_all
  moreover have "?q div d * d + ?q mod d = ?q" by simp
  ultimately have "idx div (d * b) mod c * d + ?q mod d = ?q" by simp
  then show ?thesis
    by (simp add: reference_source_def TensorPitches_def permuted_shape_def Let_def upt_rec
        matrix_source_def)
qed

lemma reference_nchw:
  assumes "0 < b" "0 < c" "0 < d" "0 \<le> idx" "idx < b * c * d"
  shows "reference_source [1, b, c, d] [0, 3, 1, 2] idx = matrix_source (b * c) d idx"
proof -
  have bc: "0 < b * c" using assms by simp
  have "idx div (b * c) mod d = idx div (b * c)"
    using assms bc by (intro mod_pos_pos_trivial div_nonneg int_div_less) simp_all
  moreover have "idx mod (b * c) = c * (idx div c mod b) + idx mod c"
    using assms(1) by (simp add: mult.commute[of b c] zmod_zmult2_eq)
  ultimately show ?thesis
    by (simp add: reference_source_def TensorPitches_def permuted_shape_def Let_def upt_rec
        matrix_source_def algebra_simps)
qed

lemma no_fit_outside:
  assumes "length input_shape = length perm"
    and "\<not> (length perm = 4 \<and> input_shape ! 0 = 1 \<and> (perm = [0, 2, 3, 1] \<or> perm = [0, 3, 1, 2]))"
    and "perm \<noteq> [1, 0]"
  shows "TryTransposeWithCublas perm input_shape = Inr (0, 0)"
proof -
  consider "length perm = 4" | "length perm = 2" | "length perm \<noteq> 4 \<and> length perm \<noteq> 2" by blast
  then show ?thesis
  proof cases
    case 1
    then obtain p0 p1 p2 p3 where p: "perm = [p0, p1, p2, p3]" using list4 by blast
    show ?thesis using assms 1 unfolding p by (auto simp add: TryTransposeWithCublas_def)
  next
    case 2
    then obtain p0 p1 where p: "perm = [p0, p1]" using list2 by blast
    show ?thesis using assms 2 unfolding p by (auto simp add: TryTransposeWithCublas_def)
  next
    case 3
    then show ?thesis by (simp add: TryTransposeWithCublas_def)
  qed
qed

lemma narrow_int_Inr: "narrow_int x = Inr y \<Longrightarrow> y = x"
  by (simp add: narrow_int_def split: if_splits)

lemma fit_is_matrix:
  assumes len: "length input_shape = length perm"
    and nonneg: "\<forall>d\<in>set input_shape. 0 \<le> d"
    and res: "TryTransposeWithCublas perm input_shape = Inr (M, N)"
    and fit: "is_fit (M, N)"
    and idx: "0 \<le> idx" "idx < M * N"
  shows "Size input_shape = M * N \<and> reference_source input_shape perm idx = matrix_source M N idx"
proof -
  have MN: "M \<noteq> 0" "N \<noteq> 0" using fit by (simp_all add: is_fit_def)
  have pat: "(length perm = 4 \<and> input_shape ! 0 = 1 \<and> (perm = [0, 2, 3, 1] \<or> perm = [0, 3, 1, 2])) \<or> perm = [1, 0]"
    using no_fit_outside[OF len] res MN by fastforce
  then consider (nhwc) "length perm = 4" "input_shape ! 0 = 1" "perm = [0, 2, 3, 1]"
    | (nchw) "length perm = 4" "input_shape ! 0 = 1" "perm = [0, 3, 1, 2]"
    | (two) "perm = [1, 0]" by blast
  then show ?thesis
  proof cases
    case nhwc
    obtain a b c d where s: "input_shape = [a, b, c, d]" using len nhwc(1) list4 by metis
    have a: "a = 1" using nhwc(2) s by simp
    have "M = b \<and> N = c * d"
      using res unfolding s nhwc(3)
      by (auto simp add: TryTransposeWithCublas_def a split: sum.splits dest: narrow_int_Inr)
    moreover have "0 \<le> b" "0 \<le> c" "0 \<le> d" using nonneg s by simp_all
    ultimately have p: "0 < b" "0 < c" "0 < d" "M = b" "N = c * d" using MN by (auto simp: less_le)
    show ?thesis
      using reference_nhwc[OF p(1,2,3) idx(1)] idx(2)
      unfolding s nhwc(3) a p(4,5) by (simp add: Size_def)
  next
    case nchw
    obtain a b c d where s: "input_shape = [a, b, c, d]" using len nchw(1) list4 by metis
    have a: "a = 1" using nchw(2) s by simp
    have "M = b * c \<and> N = d"
      using res unfolding s nchw(3)
      by (auto simp add: TryTransposeWithCublas_def a split: sum.splits dest: narrow_int_Inr)
    moreover have "0 \<le> b" "0 \<le> c" "0 \<le> d" using nonneg s by simp_all
    ultimately have p: "0 < b" "0 < c" "0 < d" "M = b * c" "N = d" using MN by (auto simp: less_le)
    show ?thesis
      using reference_nchw[OF p(1,2,3) idx(1)] idx(2)
      unfolding s nchw(3) a p(4,5) by (simp add: Size_def)
  next
    case two
    obtain a b where s: "input_shape = [a, b]" using len two list2 by (metis length_Cons list.size(3) numeral_2_eq_2)
    have "M = a \<and> N = b"
      using res unfolding s two
      by (auto simp add: TryTransposeWithCublas_def split: sum.splits dest: narrow_int_Inr)
    moreover have "0 \<le> a" "0 \<le> b" using nonneg s by simp_all
    ultimately have p: "0 < a" "0 < b" "M = a" "N = b" using MN by (auto simp: less_le)
    show ?thesis
      using reference_rank2[OF p(1,2) idx(1)] idx(2)
      unfolding s two p(3,4) by (simp add: Size_def)
  qed
qed

lemma detect_inside:
  assumes len: "length input_shape = length perm"
    and pat: "matrix_pattern perm input_shape"
  shows "TryTransposeWithCublas perm input_shape =
           (if fits_int (fst (pattern_fit perm input_shape)) \<and>
               fits_int (snd (pattern_fit perm input_shape))
            then Inr (pattern_fit perm input_shape)
            else Inl NarrowingError)"
proof -
  from pat consider (nhwc) "length perm = 4" "input_shape ! 0 = 1" "perm = [0, 2, 3, 1]"
    | (nchw) "length perm = 4" "input_shape ! 0 = 1" "perm = [0, 3, 1, 2]"
    | (two) "perm = [1, 0]" unfolding matrix_pattern_def by blast
  then show ?thesis
  proof cases
    case nhwc
    obtain a b c d where s: "input_shape = [a, b, c, d]" using len nhwc(1) list4 by metis
    show ?thesis using nhwc(2) unfolding s nhwc(3)
      by (simp add: TryTransposeWithCublas_def narrow_int_fits pattern_fit_def)
  next
    case nchw
    obtain a b c d where s: "input_shape = [a, b, c, d]" using len nchw(1) list4 by metis
    show ?thesis using nchw(2) unfolding s nchw(3)
      by (simp add: TryTransposeWithCublas_def narrow_int_fits pattern_fit_def)
  next
    case two
    obtain a b where s: "input_shape = [a, b]"
      using len two list2 by (metis length_Cons list.size(3) numeral_2_eq_2)
    show ?thesis unfolding s two
      by (simp add: TryTransposeWithCublas_def narrow_int_fits pattern_fit_def)
  qed
qed

text \<open>
  Claim C8, as amended. For every permutation and shape outside the rank-4 and rank-2
  patterns, of any rank, the detector returns no fit; every fit \<open>(M, N)\<close> it returns is for
  an operation of \<open>M * N\<close> elements whose reference reordering reads, at every output
  index, the element that transposing an \<open>M \<times> N\<close> row-major matrix reads; and inside the
  patterns it returns the pair \<open>(M, N)\<close> of the matching rule when \<open>M\<close> and \<open>N\<close> are each
  representable as a signed 32-bit integer, a fit exactly when both are also nonzero, and
  raises a narrowing error when one of them is not representable.
\<close>

theorem TryTransposeWithCublas_exactness:
  assumes "length input_shape = length perm" and "\<forall>d\<in>set input_shape. 0 \<le> d"
  shows "(\<not> matrix_pattern perm input_shape \<longrightarrow>
            TryTransposeWithCublas perm input_shape = Inr (0, 0)) \<and>
         (\<forall>M N idx. TryTransposeWithCublas perm input_shape = Inr (M, N) \<and> is_fit (M, N) \<and>
              0 \<le> idx \<and> idx < M * N \<longrightarrow>
            Size input_shape = M * N \<and>
            reference_source input_shape perm idx = matrix_source M N idx) \<and>
         (matrix_pattern perm input_shape \<longrightarrow>
            TryTransposeWithCublas perm input_shape =
              (if fits_int (fst (pattern_fit perm input_shape)) \<and>
                  fits_int (snd (pattern_fit perm input_shape))
               then Inr (pattern_fit perm input_shape)
               else Inl NarrowingError) \<and>
            ((\<exists>mn. TryTransposeWithCublas perm input_shape = Inr mn \<and> is_fit mn) \<longleftrightarrow>
               fits_int (fst (pattern_fit perm input_shape)) \<and>
               fits_int (snd (pattern_fit perm input_shape)) \<and>
               is_fit (pattern_fit perm input_shape)))"
proof (intro conjI impI)
  assume "\<not> matrix_pattern perm input_shape"
  then show "TryTransposeWithCublas perm input_shape = Inr (0, 0)"
    using no_fit_outside[OF assms(1)] unfolding matrix_pattern_def by blast
next
  show "\<forall>M N idx. TryTransposeWithCublas perm input_shape = Inr (M, N) \<and> is_fit (M, N) \<and>
              0 \<le> idx \<and> idx < M * N \<longrightarrow>
            Size input_shape = M * N \<and>
            reference_source input_shape perm idx = matrix_source M N idx"
    using fit_is_matrix[OF assms] by blast
next
  assume "matrix_pattern perm input_shape"
  then show "TryTransposeWithCublas perm input_shape =
              (if fits_int (fst (pattern_fit perm input_shape)) \<and>
                  fits_int (snd (pattern_fit perm input_shape))
               then Inr (pattern_fit perm input_shape)
               else Inl NarrowingError)"
    by (rule detect_inside[OF assms(1)])
next
  assume "matrix_pattern perm input_shape"
  then show "(\<exists>mn. TryTransposeWithCublas perm input_shape = Inr mn \<and> is_fit mn) \<longleftrightarrow>
               fits_int (fst (pattern_fit perm input_shape)) \<and>
               fits_int (snd (pattern_fit perm input_shape)) \<and>
               is_fit (pattern_fit perm input_shape)"
    using detect_inside[OF assms(1)]
    by (cases "pattern_fit perm input_shape") (auto split: if_splits)
qed

text \<open>
  The theorem at a rank-3 input without a fit, at the rank-4 scenario, at two inputs
  inside the patterns whose element count is \<open>2 ^ 32\<close>, and at one whose \<open>M\<close> is not
  representable.
\<close>

theorem TryTransposeWithCublas_exactness_witness:
  "TryTransposeWithCublas [0, 2, 1] [1, 3, 4] = Inr (0, 0) \<and>
   TryTransposeWithCublas [0, 2, 3, 1] [1, 3, 4, 5] = Inr (3, 20) \<and>
   Size [1, 3, 4, 5] = 3 * 20 \<and>
   reference_source [1, 3, 4, 5] [0, 2, 3, 1] 7 = matrix_source 3 20 7 \<and>
   matrix_source 3 20 7 = 22 \<and>
   TryTransposeWithCublas [1, 0] [65536, 65536] = Inr (65536, 65536) \<and>
   TryTransposeWithCublas [0, 3, 1, 2] [1, 256, 256, 65536] = Inr (65536, 65536) \<and>
   TryTransposeWithCublas [0, 3, 1, 2] [1, 65536, 65536, 1] = Inl NarrowingError"
proof -
  have a1: "length [1, 3, 4 :: int] = length [0, 2, 1 :: nat]" by simp
  have a2: "\<forall>d\<in>set [1, 3, 4 :: int]. 0 \<le> d" by simp
  have a3: "\<not> matrix_pattern [0, 2, 1] [1, 3, 4]" by (simp add: matrix_pattern_def)
  have b1: "length [1, 3, 4, 5 :: int] = length [0, 2, 3, 1 :: nat]" by simp
  have b2: "\<forall>d\<in>set [1, 3, 4, 5 :: int]. 0 \<le> d" by simp
  have c1: "length [65536, 65536 :: int] = length [1, 0 :: nat]" by simp
  have c2: "\<forall>d\<in>set [65536, 65536 :: int]. 0 \<le> d" by simp
  have c3: "matrix_pattern [1, 0] [65536, 65536]" by (simp add: matrix_pattern_def)
  have d1: "length [1, 256, 256, 65536 :: int] = length [0, 3, 1, 2 :: nat]" by simp
  have d2: "\<forall>d\<in>set [1, 256, 256, 65536 :: int]. 0 \<le> d" by simp
  have d3: "matrix_pattern [0, 3, 1, 2] [1, 256, 256, 65536]" by (simp add: matrix_pattern_def)
  have e1: "length [1, 65536, 65536, 1 :: int] = length [0, 3, 1, 2 :: nat]" by simp
  have e2: "\<forall>d\<in>set [1, 65536, 65536, 1 :: int]. 0 \<le> d" by simp
  have e3: "matrix_pattern [0, 3, 1, 2] [1, 65536, 65536, 1]" by (simp add: matrix_pattern_def)
  show ?thesis
    using TryTransposeWithCublas_exactness [OF a1 a2, THEN conjunct1, rule_format, OF a3]
      TryTransposeWithCublas_exactness [OF b1 b2, THEN conjunct2, THEN conjunct1, rule_format, of 3 20 7]
      TryTransposeWithCublas_exactness [OF c1 c2, THEN conjunct2, THEN conjunct2, rule_format, OF c3, THEN conjunct1]
      TryTransposeWithCublas_exactness [OF d1 d2, THEN conjunct2, THEN conjunct2, rule_format, OF d3, THEN conjunct1]
      TryTransposeWithCublas_exactness [OF e1 e2, THEN conjunct2, THEN conjunct2, rule_format, OF e3, THEN conjunct1]
    by (simp add: TryTransposeWithCublas_def narrow_int_def is_fit_def matrix_source_def Size_def
        fits_int_def pattern_fit_def)
qed

text \<open>
  Claim C8 as written fails in the direction from the patterns to a fit: the shape
  \<open>[1, 65536, 65536, 1]\<close> with the permutation \<open>[0, 3, 1, 2]\<close> is inside the rank-4 pattern,
  and the detector raises instead of returning a fit.
\<close>

theorem TryTransposeWithCublas_exactness_counterexample:
  "matrix_pattern [0, 3, 1, 2] [1, 65536, 65536, 1] \<and>
   TryTransposeWithCublas [0, 3, 1, 2] [1, 65536, 65536, 1] = Inl NarrowingError"
  by (simp add: matrix_pattern_def TryTransposeWithCublas_def narrow_int_def)

section \<open>The dimension collapser\<close>

lemma cast_int32_small: "int n < 2 ^ 31 \<Longrightarrow> cast_int32 n = int n"
  by (simp add: cast_int32_def narrow_cast_int_def)

lemma adjacent_count_le: "adjacent_count perm lo hi \<le> hi - lo"
  unfolding adjacent_count_def by (metis length_filter_le length_upt)

lemma adjacent_count_step:
  "lo < hi \<Longrightarrow> adjacent_count perm lo hi =
     (if perm ! (lo - 1) + 1 = perm ! lo then 1 else 0) + adjacent_count perm (Suc lo) hi"
  by (simp add: adjacent_count_def upt_conv_Cons)

lemma fold_shift_length:
  "length (fold (\<lambda>j ys. ys[j - 1 := ys ! j]) js xs) = length xs"
  by (induction js arbitrary: xs) auto

lemma length_shift_left: "length (shift_left lo hi xs) = length xs"
  unfolding shift_left_def by (rule fold_shift_length)

lemma fold_decrement_length:
  "length (fold (\<lambda>j ys. if ys ! j > c then ys[j := ys ! j - 1] else ys) js xs) = length xs"
  by (induction js arbitrary: xs) auto

lemma length_decrement_above: "length (decrement_above c r ps) = length ps"
  unfolding decrement_above_def by (rule fold_decrement_length)

lemma list_all_update:
  "list_all P xs \<Longrightarrow> P v \<Longrightarrow> list_all P (xs[j := v])"
  by (induction xs arbitrary: j) (auto split: nat.splits)

lemma fold_shift_bound:
  "list_all P xs \<Longrightarrow> list_all (\<lambda>j. j < length xs) js \<Longrightarrow>
     list_all P (fold (\<lambda>j ys. ys[j - 1 := ys ! j]) js xs)"
proof (induction js arbitrary: xs)
  case Nil
  then show ?case by simp
next
  case (Cons j js)
  have "j < length xs" using Cons.prems(2) by simp
  then have "P (xs ! j)" using Cons.prems(1) by (simp add: list_all_length)
  then have "list_all P (xs[j - 1 := xs ! j])" using Cons.prems(1) by (rule list_all_update[rotated])
  moreover have "list_all (\<lambda>j. j < length (xs[j - 1 := xs ! j])) js" using Cons.prems(2) by simp
  ultimately show ?case using Cons.IH by simp
qed

lemma shift_left_bound:
  "list_all P xs \<Longrightarrow> hi \<le> length xs \<Longrightarrow> list_all P (shift_left lo hi xs)"
  unfolding shift_left_def by (rule fold_shift_bound) (auto simp: list_all_iff)

lemma fold_decrement_bound:
  "list_all (\<lambda>p. p < (n::nat)) xs \<Longrightarrow> list_all (\<lambda>j. j < length xs) js \<Longrightarrow>
     list_all (\<lambda>p. p < n) (fold (\<lambda>j ys. if ys ! j > c then ys[j := ys ! j - 1] else ys) js xs)"
proof (induction js arbitrary: xs)
  case Nil
  then show ?case by simp
next
  case (Cons j js)
  let ?xs' = "if xs ! j > c then xs[j := xs ! j - 1] else xs"
  have "j < length xs" using Cons.prems(2) by simp
  then have "xs ! j < n" using Cons.prems(1) by (simp add: list_all_length)
  then have "xs ! j - 1 < n" by simp
  then have "list_all (\<lambda>p. p < n) ?xs'" using Cons.prems(1) by (simp add: list_all_update)
  moreover have "list_all (\<lambda>j. j < length ?xs') js" using Cons.prems(2) by simp
  ultimately have "list_all (\<lambda>p. p < n) (fold (\<lambda>j ys. if ys ! j > c then ys[j := ys ! j - 1] else ys) js ?xs')"
    by (rule Cons.IH)
  then show ?case by simp
qed

lemma decrement_above_bound:
  "list_all (\<lambda>p. p < (n::nat)) ps \<Longrightarrow> r \<le> length ps \<Longrightarrow> list_all (\<lambda>p. p < n) (decrement_above c r ps)"
  unfolding decrement_above_def by (rule fold_decrement_bound) (auto simp: list_all_iff)

lemma wrap_adjacent:
  assumes "int n < 2 ^ 31" "p < n"
  shows "((int p + 1) mod 2 ^ 64 = int c) = (p + 1 = c)"
proof -
  have "int p + 1 < 2 ^ 31" using assms by linarith
  also have "(2::int) ^ 31 < 2 ^ 64" by simp
  finally have "(int p + 1) mod 2 ^ 64 = int p + 1" by simp
  then show ?thesis by (simp only:) linarith
qed

lemma collapse_step_inv:
  assumes inv: "collapse_inv n s" and k: "Suc k < n"
    and rank: "new_rank s = int n - int (adjacent_count (permutations s) (Suc (Suc k)) n)"
  shows "\<exists>s'. collapse_step (Suc k) s = Inr s' \<and> collapse_inv n s' \<and>
           permutations s' = permutations s \<and>
           new_rank s' = int n - int (adjacent_count (permutations s) (Suc k) n)"
proof -
  let ?perm = "permutations s"
  have small: "int n < 2 ^ 31" and len: "length ?perm = n" using inv by (simp_all add: collapse_inv_def)
  have prev: "?perm ! k < n" and cur: "?perm ! Suc k < n"
    using inv k by (simp_all add: collapse_inv_def list_all_length)
  have adj: "((int (?perm ! k) + 1) mod 2 ^ 64 = int (?perm ! Suc k)) = (?perm ! k + 1 = ?perm ! Suc k)"
    using small prev by (rule wrap_adjacent)
  have cnt: "adjacent_count ?perm (Suc k) n =
     (if ?perm ! k + 1 = ?perm ! Suc k then 1 else 0) + adjacent_count ?perm (Suc (Suc k)) n"
    using adjacent_count_step[OF k, of ?perm] by simp
  have le: "adjacent_count ?perm (Suc (Suc k)) n \<le> n - Suc (Suc k)"
    by (rule adjacent_count_le)
  show ?thesis
  proof (cases "?perm ! k + 1 = ?perm ! Suc k")
    case False
    then show ?thesis
      using inv k rank len adj cnt by (simp add: collapse_step_def Let_def)
  next
    case True
    have r1: "1 \<le> nat (new_rank s)" and rn: "nat (new_rank s) \<le> n"
      using rank le k by linarith+
    have step: "collapse_step (Suc k) s = Inr (s\<lparr>
           new_permutations :=
             shift_left (Suc k + 1) (nat (new_rank s)) (decrement_above (?perm ! Suc k) (nat (new_rank s)) (new_permutations s)),
           new_input_dims :=
             (shift_left (?perm ! Suc k + 1) (nat (new_rank s))
                ((new_input_dims s)
                   [?perm ! k := new_input_dims s ! (?perm ! k) * new_input_dims s ! (?perm ! Suc k), ?perm ! Suc k := 1]))
               [nat (new_rank s) - 1 := 1],
           new_output_dims :=
             (shift_left (Suc k + 1) (nat (new_rank s))
                ((new_output_dims s)
                   [k := new_output_dims s ! k * new_output_dims s ! Suc k, Suc k := 1]))
               [nat (new_rank s) - 1 := 1],
           new_rank := new_rank s - 1\<rparr>)"
      using inv k True adj r1 rn prev cur
      by (simp add: collapse_step_def Let_def collapse_inv_def)
    have b: "list_all (\<lambda>p. p < n)
       (shift_left (Suc k + 1) (nat (new_rank s)) (decrement_above (?perm ! Suc k) (nat (new_rank s)) (new_permutations s)))"
      using inv rn
      by (intro shift_left_bound decrement_above_bound) (simp_all add: collapse_inv_def length_decrement_above)
    show ?thesis
      unfolding step
      using inv b rank cnt True
      by (simp add: collapse_inv_def length_shift_left length_decrement_above)
  qed
qed

lemma collapse_loop_inv:
  assumes "collapse_inv n s" "k < n"
    and "new_rank s = int n - int (adjacent_count (permutations s) (Suc k) n)"
  shows "\<exists>s'. collapse_loop k s = Inr s' \<and> collapse_inv n s' \<and>
           permutations s' = permutations s \<and>
           new_rank s' = int n - int (adjacent_count (permutations s) 1 n)"
  using assms
proof (induction k arbitrary: s)
  case 0
  then show ?case by simp
next
  case (Suc k)
  obtain s1 where s1: "collapse_step (Suc k) s = Inr s1" "collapse_inv n s1"
      "permutations s1 = permutations s"
      "new_rank s1 = int n - int (adjacent_count (permutations s) (Suc k) n)"
    using collapse_step_inv[OF Suc.prems(1) Suc.prems(2) Suc.prems(3)] by blast
  have "k < n" using Suc.prems(2) by simp
  from Suc.IH[OF s1(2) this] s1(3,4)
  obtain s' where "collapse_loop k s1 = Inr s'" "collapse_inv n s'"
      "permutations s' = permutations s1"
      "new_rank s' = int n - int (adjacent_count (permutations s1) 1 n)"
    by auto
  then show ?case using s1 by simp
qed

lemma collapse_total:
  assumes "valid_permutation perm (length in_dims)" "length out_dims = length in_dims"
  shows "\<exists>s. collapse perm in_dims out_dims = Inr s \<and> collapse_inv (length in_dims) s \<and>
           new_rank s = int (length in_dims) - int (adjacent_count perm 1 (length in_dims))"
proof (cases "length in_dims = 0")
  case True
  then show ?thesis
    using assms
    by (simp add: collapse_def collapse_init_def collapse_inv_def valid_permutation_def
        cast_int32_small adjacent_count_def)
next
  case False
  let ?n = "length in_dims"
  have small: "int ?n < 2 ^ 31" using assms(1) by (simp add: valid_permutation_def)
  have inv: "collapse_inv ?n (collapse_init perm in_dims out_dims)"
    using assms by (simp add: collapse_inv_def collapse_init_def valid_permutation_def)
  have k: "?n - 1 < ?n" using False by simp
  have r: "new_rank (collapse_init perm in_dims out_dims) =
      int ?n - int (adjacent_count (permutations (collapse_init perm in_dims out_dims)) (Suc (?n - 1)) ?n)"
    using False small by (simp add: collapse_init_def cast_int32_small adjacent_count_def)
  have loop: "collapse perm in_dims out_dims = collapse_loop (?n - 1) (collapse_init perm in_dims out_dims)"
    using small by (simp add: collapse_def cast_int32_small nat_diff_distrib')
  show ?thesis
    using collapse_loop_inv[OF inv k r] unfolding loop
    by (auto simp add: collapse_init_def)
qed

text \<open>
  Claim C10. For every valid permutation of rank at least 1 the collapser returns, and
  the collapsed rank is the rank minus the number of indices \<open>i\<close> in \<open>[1, rank)\<close> with
  \<open>permutation[i-1] + 1 = permutation[i]\<close>, the test being made on the caller's permutation
  for every \<open>i\<close>; so the collapsed rank is at least 1.
\<close>

theorem collapse_rank:
  assumes "valid_permutation perm (length in_dims)" "length out_dims = length in_dims"
    and "1 \<le> length perm"
  shows "\<exists>s. collapse perm in_dims out_dims = Inr s \<and>
           new_rank s = int (length perm) - int (adjacent_count perm 1 (length perm)) \<and>
           1 \<le> new_rank s"
proof -
  have n: "length perm = length in_dims" using assms(1) by (simp add: valid_permutation_def)
  have "adjacent_count perm 1 (length perm) \<le> length perm - 1" by (rule adjacent_count_le)
  then have "1 \<le> int (length perm) - int (adjacent_count perm 1 (length perm))"
    using assms(3) by linarith
  then show ?thesis using collapse_total[OF assms(1,2)] n by auto
qed


text \<open>The theorem at the identity permutation of rank 3, where both tests succeed.\<close>

theorem collapse_rank_witness:
  "\<exists>s. collapse [0, 1, 2] [2, 3, 4] [2, 3, 4] = Inr s \<and> new_rank s = 1"
  using collapse_rank [of "[0, 1, 2]" "[2, 3, 4]" "[2, 3, 4]"]
  by (auto simp add: valid_permutation_def adjacent_count_def)

text \<open>
  Claim C2 says that the collapsed plan keeps the element count of the input and of the
  output shape. The collapsing loop indexes the rewritten input sizes with the entries of
  the caller's permutation, which an earlier fusion has made stale: for the permutation
  \<open>[2, 3, 0, 1]\<close> and the input shape \<open>[2, 1, 1, 2]\<close> the collapsed input shape is \<open>[2, 1]\<close>,
  with 2 elements where the input has 4.
\<close>

theorem collapse_drops_elements:
  "collapse [2, 3, 0, 1] [2, 1, 1, 2] [1, 2, 2, 1] =
     Inr \<lparr>permutations = [2, 3, 0, 1], input_dims = [2, 1, 1, 2], output_dims = [1, 2, 2, 1],
          new_rank = 2, new_permutations = [1, 0, 0, 1],
          new_input_dims = [2, 1, 1, 1], new_output_dims = [2, 2, 1, 1]\<rparr> \<and>
   plan_input_count \<lparr>permutations = [2, 3, 0, 1], input_dims = [2, 1, 1, 2], output_dims = [1, 2, 2, 1],
          new_rank = 2, new_permutations = [1, 0, 0, 1],
          new_input_dims = [2, 1, 1, 1], new_output_dims = [2, 2, 1, 1]\<rparr> = 2 \<and>
   plan_output_count \<lparr>permutations = [2, 3, 0, 1], input_dims = [2, 1, 1, 2], output_dims = [1, 2, 2, 1],
          new_rank = 2, new_permutations = [1, 0, 0, 1],
          new_input_dims = [2, 1, 1, 1], new_output_dims = [2, 2, 1, 1]\<rparr> = 4 \<and>
   Size [2, 1, 1, 2] = 4 \<and> Size [1, 2, 2, 1] = 4"
  by code_simp

section \<open>The dispatcher\<close>

lemma Size_zero_iff: "Size dims = 0 \<longleftrightarrow> 0 \<in> set dims"
  by (simp add: Size_def prod_list_zero_iff)

lemma collapse_step_frame:
  "collapse_step i s = Inr s' \<Longrightarrow>
     permutations s' = permutations s \<and> input_dims s' = input_dims s \<and> output_dims s' = output_dims s"
  by (auto simp add: collapse_step_def Let_def split: if_splits)

lemma collapse_loop_frame:
  "collapse_loop k s = Inr s' \<Longrightarrow>
     permutations s' = permutations s \<and> input_dims s' = input_dims s \<and> output_dims s' = output_dims s"
proof (induction k arbitrary: s)
  case 0
  then show ?case by simp
next
  case (Suc k)
  then obtain s1 where s1: "collapse_step (Suc k) s = Inr s1" "collapse_loop k s1 = Inr s'"
    by (auto split: sum.splits)
  show ?case using collapse_step_frame[OF s1(1)] Suc.IH[OF s1(2)] by simp
qed

lemma collapse_frame:
  "collapse perm in_dims out_dims = Inr s \<Longrightarrow>
     permutations s = perm \<and> input_dims s = in_dims \<and> output_dims s = out_dims"
  unfolding collapse_def by (drule collapse_loop_frame) (simp add: collapse_init_def)

lemma length_TensorPitches: "length (TensorPitches dims) = length dims"
  by (simp add: TensorPitches_def)

lemma permute_strides_ok:
  assumes "list_all (\<lambda>p. p < length strides) perm" "r \<le> length perm"
  shows "\<exists>ps. permute_strides strides perm r = Inr ps"
proof -
  have "list_all (\<lambda>i. perm ! i < length strides) [0..<r]"
    using assms by (simp add: list_all_length)
  then show ?thesis using assms(2) by (simp add: permute_strides_def)
qed

lemma dispatch_collapsed_one:
  assumes "collapse_inv n s" "new_rank s \<le> int n"
  shows "\<exists>c. dispatch_collapsed kern input output s = (Inr (run_adapter kern c), [c])"
proof -
  have r: "nat (new_rank s) \<le> length (new_permutations s)"
    using assms by (simp add: collapse_inv_def)
  have o: "\<exists>ps. permute_strides (TensorPitches (new_output_dims s)) (new_permutations s) (nat (new_rank s)) = Inr ps"
    using assms r by (intro permute_strides_ok) (simp_all add: collapse_inv_def length_TensorPitches)
  have i: "\<exists>ps. permute_strides (TensorPitches (new_input_dims s)) (new_permutations s) (nat (new_rank s)) = Inr ps"
    using assms r by (intro permute_strides_ok) (simp_all add: collapse_inv_def length_TensorPitches)
  have l: "nat (new_rank s) \<le> length (TensorPitches (new_output_dims s))"
    using assms by (simp add: collapse_inv_def length_TensorPitches)
  show ?thesis
    using o i l by (auto simp add: dispatch_collapsed_def Let_def)
qed

text \<open>
  Claim C5. When the output element count is 0, which is when some output dimension is
  0, the dispatcher returns success at once: no adapter is called and the collapser does
  not run.
\<close>

theorem DoTranspose_zero_size:
  "(Size (Shape output) = 0 \<longleftrightarrow> 0 \<in> set (Shape output)) \<and>
   (Size (Shape output) = 0 \<longrightarrow>
      returned (DoTranspose kern perms input output) = Inr OK \<and>
      adapter_calls (DoTranspose kern perms input output) = [] \<and>
      plan (DoTranspose kern perms input output) = None)"
  by (simp add: Size_zero_iff DoTranspose_def Let_def)

text \<open>The theorem at the shape \<open>[2, 0, 4]\<close>.\<close>

theorem DoTranspose_zero_size_witness:
  "returned (DoTranspose always_ok [2, 0, 1]
      \<lparr>Shape = [2, 0, 4], GetElementType = Float, DataTypeSize = 4\<rparr>
      \<lparr>Shape = [4, 2, 0], GetElementType = Float, DataTypeSize = 4\<rparr>) = Inr OK \<and>
   adapter_calls (DoTranspose always_ok [2, 0, 1]
      \<lparr>Shape = [2, 0, 4], GetElementType = Float, DataTypeSize = 4\<rparr>
      \<lparr>Shape = [4, 2, 0], GetElementType = Float, DataTypeSize = 4\<rparr>) = []"
  using DoTranspose_zero_size [of "\<lparr>Shape = [4, 2, 0], GetElementType = Float, DataTypeSize = 4\<rparr>"
      always_ok "[2, 0, 1]" "\<lparr>Shape = [2, 0, 4], GetElementType = Float, DataTypeSize = 4\<rparr>"]
  by simp

text \<open>
  Claim C7. With a nonzero output element count, an element type among float, double and
  half-precision float, and a fit \<open>(M, N)\<close> from the detector, the dispatcher calls the
  accelerated adapter with \<open>(M, N)\<close>, returns its status, calls no other adapter and does not
  run the collapser.
\<close>

theorem DoTranspose_accelerated:
  assumes "Size (Shape output) \<noteq> 0"
    and "GetElementType input = Float \<or> GetElementType input = Double \<or> GetElementType input = Float16"
    and "TryTransposeWithCublas perms (Shape input) = Inr (M, N)"
    and "M \<noteq> 0" "N \<noteq> 0"
  shows "returned (DoTranspose kern perms input output) =
           Inr (run_adapter kern (TransposeWithCublas (GetElementType input) M N)) \<and>
         adapter_calls (DoTranspose kern perms input output) =
           [TransposeWithCublas (GetElementType input) M N] \<and>
         plan (DoTranspose kern perms input output) = None"
  using assms by (simp add: DoTranspose_def Let_def)

text \<open>The theorem at the half-precision scenario \<open>[1, 3, 4, 5]\<close>, \<open>[0, 2, 3, 1]\<close>.\<close>

theorem DoTranspose_accelerated_witness:
  "adapter_calls (DoTranspose always_ok [0, 2, 3, 1]
      \<lparr>Shape = [1, 3, 4, 5], GetElementType = Float16, DataTypeSize = 2\<rparr>
      \<lparr>Shape = [1, 4, 5, 3], GetElementType = Float16, DataTypeSize = 2\<rparr>) =
     [TransposeWithCublas Float16 3 20] \<and>
   plan (DoTranspose always_ok [0, 2, 3, 1]
      \<lparr>Shape = [1, 3, 4, 5], GetElementType = Float16, DataTypeSize = 2\<rparr>
      \<lparr>Shape = [1, 4, 5, 3], GetElementType = Float16, DataTypeSize = 2\<rparr>) = None"
  using DoTranspose_accelerated [of "\<lparr>Shape = [1, 4, 5, 3], GetElementType = Float16, DataTypeSize = 2\<rparr>"
      "\<lparr>Shape = [1, 3, 4, 5], GetElementType = Float16, DataTypeSize = 2\<rparr>" "[0, 2, 3, 1]" 3 20 always_ok]
  by (simp add: Size_def TryTransposeWithCublas_def narrow_int_def)

text \<open>
  Claim C9. After every call the caller's permutation and both shape vectors are what they
  were before it; when the collapser ran, its plan was built in copies and the vectors it
  refers to are the caller's, unchanged.
\<close>

theorem DoTranspose_frame:
  "caller_permutations (DoTranspose kern perms input output) = perms \<and>
   caller_input_dims (DoTranspose kern perms input output) = Shape input \<and>
   caller_output_dims (DoTranspose kern perms input output) = Shape output \<and>
   (\<forall>s. plan (DoTranspose kern perms input output) = Some s \<longrightarrow>
      permutations s = perms \<and> input_dims s = Shape input \<and> output_dims s = Shape output)"
proof -
  have "collapse perms (Shape input) (Shape output) = Inr s \<Longrightarrow>
      permutations s = perms \<and> input_dims s = Shape input \<and> output_dims s = Shape output" for s
    by (rule collapse_frame)
  then show ?thesis
    by (auto simp add: DoTranspose_def Let_def split: sum.splits prod.splits)
qed

text \<open>
  Claim C6, as amended. For every call with a valid permutation, shapes of one rank and a
  nonzero output element count: when the element type is float, double or half-precision
  float and the detector raises a narrowing error, the call ends with that error and no
  adapter is called; in every other case exactly one adapter is called and its status is
  returned.
\<close>

theorem DoTranspose_one_adapter:
  assumes "valid_permutation perms (length (Shape input))"
    and "length (Shape output) = length (Shape input)"
    and "Size (Shape output) \<noteq> 0"
  shows "if (GetElementType input = Float \<or> GetElementType input = Double \<or>
             GetElementType input = Float16) \<and>
            TryTransposeWithCublas perms (Shape input) = Inl NarrowingError
         then returned (DoTranspose kern perms input output) = Inl NarrowingError \<and>
              adapter_calls (DoTranspose kern perms input output) = []
         else (\<exists>c. returned (DoTranspose kern perms input output) = Inr (run_adapter kern c) \<and>
                   adapter_calls (DoTranspose kern perms input output) = [c])"
proof -
  obtain s where s: "collapse perms (Shape input) (Shape output) = Inr s"
      "collapse_inv (length (Shape input)) s"
      "new_rank s = int (length (Shape input)) - int (adjacent_count perms 1 (length (Shape input)))"
    using collapse_total[OF assms(1,2)] by blast
  have "new_rank s \<le> int (length (Shape input))" using s(3) by simp
  from dispatch_collapsed_one[OF s(2) this]
  obtain c where c: "dispatch_collapsed kern input output s = (Inr (run_adapter kern c), [c])"
    by blast
  have narrow: "TryTransposeWithCublas perms (Shape input) = Inl e \<Longrightarrow> e = NarrowingError" for e
    using assms(1)
    by (auto simp add: TryTransposeWithCublas_def narrow_int_def valid_permutation_def
        split: if_splits sum.splits)
  show ?thesis
    using assms(3) s(1) c narrow
    by (auto simp add: DoTranspose_def Let_def split: sum.splits prod.splits)
qed

text \<open>
  The frame theorem at a call that runs the collapser: the plan's copies are rewritten,
  the caller's vectors are not.
\<close>

theorem DoTranspose_frame_witness:
  "caller_input_dims (DoTranspose always_ok [2, 3, 0, 1]
      \<lparr>Shape = [2, 1, 1, 2], GetElementType = OtherType, DataTypeSize = 4\<rparr>
      \<lparr>Shape = [1, 2, 2, 1], GetElementType = OtherType, DataTypeSize = 4\<rparr>) = [2, 1, 1, 2] \<and>
   (\<exists>s. plan (DoTranspose always_ok [2, 3, 0, 1]
      \<lparr>Shape = [2, 1, 1, 2], GetElementType = OtherType, DataTypeSize = 4\<rparr>
      \<lparr>Shape = [1, 2, 2, 1], GetElementType = OtherType, DataTypeSize = 4\<rparr>) = Some s \<and>
      input_dims s = [2, 1, 1, 2] \<and> permutations s = [2, 3, 0, 1] \<and> output_dims s = [1, 2, 2, 1])"
proof -
  have p: "plan (DoTranspose always_ok [2, 3, 0, 1]
      \<lparr>Shape = [2, 1, 1, 2], GetElementType = OtherType, DataTypeSize = 4\<rparr>
      \<lparr>Shape = [1, 2, 2, 1], GetElementType = OtherType, DataTypeSize = 4\<rparr>) \<noteq> None"
    by code_simp
  show ?thesis
    using p DoTranspose_frame [of always_ok "[2, 3, 0, 1]"
      "\<lparr>Shape = [2, 1, 1, 2], GetElementType = OtherType, DataTypeSize = 4\<rparr>"
      "\<lparr>Shape = [1, 2, 2, 1], GetElementType = OtherType, DataTypeSize = 4\<rparr>"]
    by auto
qed

text \<open>
  The theorem at a rank-3 call that no accelerated pattern matches, and at a rank-2 call
  whose first size is not representable, with and without an accelerated element type.
\<close>

theorem DoTranspose_one_adapter_witness:
  "(\<exists>c. adapter_calls (DoTranspose always_ok [1, 0, 2]
      \<lparr>Shape = [2, 3, 4], GetElementType = Float, DataTypeSize = 4\<rparr>
      \<lparr>Shape = [3, 2, 4], GetElementType = Float, DataTypeSize = 4\<rparr>) = [c]) \<and>
   returned (DoTranspose always_ok [1, 0]
      \<lparr>Shape = [2147483648, 1], GetElementType = Float, DataTypeSize = 4\<rparr>
      \<lparr>Shape = [1, 2147483648], GetElementType = Float, DataTypeSize = 4\<rparr>) = Inl NarrowingError \<and>
   (\<exists>c. adapter_calls (DoTranspose always_ok [1, 0]
      \<lparr>Shape = [2147483648, 1], GetElementType = OtherType, DataTypeSize = 4\<rparr>
      \<lparr>Shape = [1, 2147483648], GetElementType = OtherType, DataTypeSize = 4\<rparr>) = [c])"
  using DoTranspose_one_adapter [of "[1, 0, 2]"
      "\<lparr>Shape = [2, 3, 4], GetElementType = Float, DataTypeSize = 4\<rparr>"
      "\<lparr>Shape = [3, 2, 4], GetElementType = Float, DataTypeSize = 4\<rparr>" always_ok]
    DoTranspose_one_adapter [of "[1, 0]"
      "\<lparr>Shape = [2147483648, 1], GetElementType = Float, DataTypeSize = 4\<rparr>"
      "\<lparr>Shape = [1, 2147483648], GetElementType = Float, DataTypeSize = 4\<rparr>" always_ok]
    DoTranspose_one_adapter [of "[1, 0]"
      "\<lparr>Shape = [2147483648, 1], GetElementType = OtherType, DataTypeSize = 4\<rparr>"
      "\<lparr>Shape = [1, 2147483648], GetElementType = OtherType, DataTypeSize = 4\<rparr>" always_ok]
  by (auto simp add: valid_permutation_def Size_def TryTransposeWithCublas_def narrow_int_def)

text \<open>
  Claim C6 as written fails for a call with an output element count of 0: the dispatcher
  returns before any adapter is called.
\<close>

theorem DoTranspose_one_adapter_counterexample:
  "adapter_calls (DoTranspose always_ok [0, 1, 2]
      \<lparr>Shape = [2, 0, 4], GetElementType = Float, DataTypeSize = 4\<rparr>
      \<lparr>Shape = [2, 0, 4], GetElementType = Float, DataTypeSize = 4\<rparr>) = []"
  by (simp add: DoTranspose_def Size_def)

text \<open>
  Claim C1 says that running the transpose through the collapsed plan gives, element by
  element, the result of the naive reference reordering. For the permutation
  \<open>[2, 3, 0, 1]\<close> on a 4-byte tensor of shape \<open>[2, 1, 1, 2]\<close> the dispatcher hands the
  general strided adapter the strides of the collapsed plan; the adapter then writes
  \<open>[10, 11, 11, 12]\<close> from the input \<open>[10, 11, 12, 13]\<close>, where the reference reordering
  gives \<open>[10, 12, 11, 13]\<close>.
\<close>

theorem collapsed_reorder_differs:
  "adapter_calls (DoTranspose always_ok [2, 3, 0, 1]
      \<lparr>Shape = [2, 1, 1, 2], GetElementType = OtherType, DataTypeSize = 4\<rparr>
      \<lparr>Shape = [1, 2, 2, 1], GetElementType = OtherType, DataTypeSize = 4\<rparr>) =
     [TransposeImpl 4 2 [1, 1] [2, 1] 4] \<and>
   run_TransposeImpl (TransposeImpl 4 2 [1, 1] [2, 1] 4) [10, 11, 12, 13 :: int] =
     Some [10, 11, 11, 12] \<and>
   reorder (reference_source [2, 1, 1, 2] [2, 3, 0, 1]) 4 [10, 11, 12, 13 :: int] =
     [10, 12, 11, 13]"
  by code_simp

end

